theory Spec2Isabelle
  imports Complex_Main "HOL-Library.Multiset"
begin

section \<open>Data model\<close>

text \<open>
  The embedding follows \<^verbatim>\<open>main_hedge_analysis.py\<close>. Python floats are read as real
  numbers: every statement below is a statement in exact arithmetic, with no rounding of
  intermediate results, no overflow and no NaN. The two exceptions the detection code can
  raise are values of \<open>py_error\<close>: a missing dictionary key and a division by zero.
\<close>

datatype py_error = KeyError | ZeroDivisionError

text \<open>One bookmaker's entry of a match's \<^verbatim>\<open>odds\<close> dictionary: both prices are numbers.\<close>

record odds_quote =
  home :: real
  away :: real

text \<open>
  A Python dictionary keeps its keys in insertion order: it is an association list.
  A match entry is the dictionary read from the JSON file, with the three keys that the
  detectors read (\<^verbatim>\<open>match_time\<close> is never read); a key that the file does not have
  is \<open>None\<close>.
\<close>

type_synonym odds_dict = "(string \<times> odds_quote) list"

record match_entry =
  match_home_team :: "string option"
  match_away_team :: "string option"
  match_odds :: "odds_dict option"

text \<open>One value of \<^verbatim>\<open>stake_distribution\<close>.\<close>

record stake_entry =
  team :: string
  amount :: real
  odds :: real
  potential_return :: real

text \<open>
  The dataclass \<^verbatim>\<open>BettingOpportunity\<close>. The keys of \<^verbatim>\<open>stake_distribution\<close>
  are bookmaker names; the arbitrage loop starts from Python's \<^verbatim>\<open>None\<close>, so a key is
  a \<open>string option\<close>.
\<close>

record betting_opportunity =
  match_name :: string
  home_team :: string
  away_team :: string
  opportunity_type :: string
  profit_percentage :: real
  stake_distribution :: "(string option \<times> stake_entry) list"
  total_stake :: real
  guaranteed_profit :: real
  roi :: real

text \<open>
  The attributes of \<^verbatim>\<open>AFLOpportunityFinder\<close> that the detection code reads.
  \<^verbatim>\<open>max_stake_per_opportunity\<close> is set once by \<^verbatim>\<open>__init__\<close> from the other two.
\<close>

record finder =
  bankroll :: real
  min_profit_percentage :: real
  max_stake_percentage :: real

definition max_stake_per_opportunity :: "finder \<Rightarrow> real" where
  "max_stake_per_opportunity f = bankroll f * (max_stake_percentage f / 100)"

section \<open>Library operations of Python\<close>

text \<open>
  Storing under a key of a dictionary: an existing key keeps its place and takes the new
  value, a new key goes to the end. A dictionary display \<^verbatim>\<open>{k1: v1, k2: v2}\<close> stores
  its items from left to right.
\<close>

fun dict_set :: "('k \<times> 'v) list \<Rightarrow> 'k \<Rightarrow> 'v \<Rightarrow> ('k \<times> 'v) list" where
  "dict_set [] k v = [(k, v)]"
| "dict_set ((k', v') # d) k v =
     (if k' = k then (k', v) # d else (k', v') # dict_set d k v)"

text \<open>
  \<^verbatim>\<open>round(x, 2)\<close>: the nearest multiple of one hundredth, a tie going to the even
  neighbour.
\<close>

definition round_half_even :: "real \<Rightarrow> int" where
  "round_half_even y =
     (let fl = \<lfloor>y\<rfloor>; d = y - of_int fl
      in if d < 1 / 2 then fl
         else if 1 / 2 < d then fl + 1
         else if even fl then fl else fl + 1)"

definition py_round2 :: "real \<Rightarrow> real" where
  "py_round2 x = of_int (round_half_even (x * 100)) / 100"

text \<open>
  \<^verbatim>\<open>list.sort(key=lambda x: x.roi, reverse=True)\<close>: a stable sort into descending
  order of \<^verbatim>\<open>roi\<close>. An element is put in front of the first element of the sorted
  rest whose key is not greater than its own, so that equal keys keep their order.
\<close>

fun insort_roi_desc :: "betting_opportunity \<Rightarrow> betting_opportunity list \<Rightarrow> betting_opportunity list" where
  "insort_roi_desc x [] = [x]"
| "insort_roi_desc x (y # ys) =
     (if roi y \<le> roi x then x # y # ys else y # insort_roi_desc x ys)"

fun sort_roi_desc :: "betting_opportunity list \<Rightarrow> betting_opportunity list" where
  "sort_roi_desc [] = []"
| "sort_roi_desc (x # xs) = insort_roi_desc x (sort_roi_desc xs)"

section \<open>Arbitrage detection\<close>

text \<open>
  The inner loop of \<^verbatim>\<open>calculate_arbitrage_opportunities\<close>: the highest price of each
  side and the bookmaker that quotes it, starting from 0 and \<^verbatim>\<open>None\<close>.
\<close>

record best_odds =
  best_home_odds :: real
  best_away_odds :: real
  best_home_book :: "string option"
  best_away_book :: "string option"

definition best_init :: best_odds where
  "best_init = \<lparr>best_home_odds = 0, best_away_odds = 0,
                 best_home_book = None, best_away_book = None\<rparr>"

definition best_step :: "best_odds \<Rightarrow> string \<times> odds_quote \<Rightarrow> best_odds" where
  "best_step b kq =
     (let b1 = (if best_home_odds b < home (snd kq)
                then b\<lparr>best_home_odds := home (snd kq), best_home_book := Some (fst kq)\<rparr>
                else b)
      in if best_away_odds b1 < away (snd kq)
         then b1\<lparr>best_away_odds := away (snd kq), best_away_book := Some (fst kq)\<rparr>
         else b1)"

definition find_best_odds :: "odds_dict \<Rightarrow> best_odds" where
  "find_best_odds od = foldl best_step best_init od"

text \<open>The local variables of \<^verbatim>\<open>_calculate_arbitrage\<close>, one definition a line.\<close>

definition arb_total_prob :: "real \<Rightarrow> real \<Rightarrow> real" where
  "arb_total_prob h a = 1 / h + 1 / a"

definition arb_profit_percentage :: "real \<Rightarrow> real \<Rightarrow> real" where
  "arb_profit_percentage h a = (1 / arb_total_prob h a - 1) * 100"

definition arb_total_stake :: "finder \<Rightarrow> real" where
  "arb_total_stake f = min (max_stake_per_opportunity f) (bankroll f * (1 / 10))"

definition arb_home_stake :: "finder \<Rightarrow> real \<Rightarrow> real \<Rightarrow> real" where
  "arb_home_stake f h a = ((1 / h) / arb_total_prob h a) * arb_total_stake f"

definition arb_away_stake :: "finder \<Rightarrow> real \<Rightarrow> real \<Rightarrow> real" where
  "arb_away_stake f h a = ((1 / a) / arb_total_prob h a) * arb_total_stake f"

definition arb_home_return :: "finder \<Rightarrow> real \<Rightarrow> real \<Rightarrow> real" where
  "arb_home_return f h a = arb_home_stake f h a * h"

definition arb_away_return :: "finder \<Rightarrow> real \<Rightarrow> real \<Rightarrow> real" where
  "arb_away_return f h a = arb_away_stake f h a * a"

definition arb_guaranteed_profit :: "finder \<Rightarrow> real \<Rightarrow> real \<Rightarrow> real" where
  "arb_guaranteed_profit f h a =
     min (arb_home_return f h a) (arb_away_return f h a) - arb_total_stake f"

definition arb_roi :: "finder \<Rightarrow> real \<Rightarrow> real \<Rightarrow> real" where
  "arb_roi f h a = (arb_guaranteed_profit f h a / arb_total_stake f) * 100"

text \<open>
  \<^verbatim>\<open>_calculate_arbitrage\<close>. It returns \<^verbatim>\<open>None\<close> when the implied probabilities
  sum to 1 or more. Its divisions raise on a zero divisor: the two prices, the sum of the
  implied probabilities, and the total stake under \<^verbatim>\<open>roi\<close>.
\<close>

definition calculate_arbitrage ::
  "finder \<Rightarrow> real \<Rightarrow> real \<Rightarrow> string option \<Rightarrow> string option \<Rightarrow> string \<Rightarrow> string \<Rightarrow> string
     \<Rightarrow> py_error + betting_opportunity option" where
  "calculate_arbitrage f home_odds away_odds home_book away_book hteam ateam mn =
     (if home_odds = 0 \<or> away_odds = 0 then Inl ZeroDivisionError
      else if 1 \<le> arb_total_prob home_odds away_odds then Inr None
      else if arb_total_prob home_odds away_odds = 0 then Inl ZeroDivisionError
      else if arb_total_stake f = 0 then Inl ZeroDivisionError
      else Inr (Some
        \<lparr>match_name = mn, home_team = hteam, away_team = ateam,
         opportunity_type = ''arbitrage'',
         profit_percentage = arb_profit_percentage home_odds away_odds,
         stake_distribution =
           dict_set
             (dict_set [] home_book
                \<lparr>team = hteam, amount = py_round2 (arb_home_stake f home_odds away_odds),
                 odds = home_odds,
                 potential_return = py_round2 (arb_home_return f home_odds away_odds)\<rparr>)
             away_book
             \<lparr>team = ateam, amount = py_round2 (arb_away_stake f home_odds away_odds),
              odds = away_odds,
              potential_return = py_round2 (arb_away_return f home_odds away_odds)\<rparr>,
         total_stake = py_round2 (arb_total_stake f),
         guaranteed_profit = py_round2 (arb_guaranteed_profit f home_odds away_odds),
         roi = arb_roi f home_odds away_odds\<rparr>))"

text \<open>
  \<^verbatim>\<open>_get_arbitrage_percentage\<close>, which the loop calls to report a match without an
  opportunity.
\<close>

definition get_arbitrage_percentage :: "real \<Rightarrow> real \<Rightarrow> py_error + real" where
  "get_arbitrage_percentage home_odds away_odds =
     (if home_odds \<le> 0 \<or> away_odds \<le> 0 then Inr (- 100)
      else if 1 / home_odds + 1 / away_odds = 0 then Inl ZeroDivisionError
      else Inr ((1 / (1 / home_odds + 1 / away_odds) - 1) * 100))"

text \<open>
  The body of the loop over the matches in \<^verbatim>\<open>calculate_arbitrage_opportunities\<close>:
  the opportunities one match adds. A dataclass instance is always true, so the test
  \<^verbatim>\<open>arbitrage_calc and ...\<close> fails only on \<^verbatim>\<open>None\<close> or on the threshold. The
  \<^verbatim>\<open>else\<close> branch prints the arbitrage percentage and adds nothing.
\<close>

definition arbitrage_for_match :: "finder \<Rightarrow> match_entry \<Rightarrow> py_error + betting_opportunity list" where
  "arbitrage_for_match f m =
     (case match_home_team m of
        None \<Rightarrow> Inl KeyError
      | Some hteam \<Rightarrow>
         (case match_away_team m of
            None \<Rightarrow> Inl KeyError
          | Some ateam \<Rightarrow>
             (case match_odds m of
                None \<Rightarrow> Inl KeyError
              | Some od \<Rightarrow>
                 (let b = find_best_odds od
                  in if 0 < best_home_odds b \<and> 0 < best_away_odds b
                     then (case calculate_arbitrage f (best_home_odds b) (best_away_odds b)
                                  (best_home_book b) (best_away_book b)
                                  hteam ateam (hteam @ '' vs '' @ ateam) of
                             Inl e \<Rightarrow> Inl e
                           | Inr None \<Rightarrow>
                               (case get_arbitrage_percentage (best_home_odds b) (best_away_odds b) of
                                  Inl e \<Rightarrow> Inl e
                                | Inr pct \<Rightarrow> Inr [])
                           | Inr (Some opp) \<Rightarrow>
                               (if min_profit_percentage f \<le> profit_percentage opp
                                then Inr [opp]
                                else (case get_arbitrage_percentage (best_home_odds b)
                                             (best_away_odds b) of
                                        Inl e \<Rightarrow> Inl e
                                      | Inr pct \<Rightarrow> Inr [])))
                     else Inr []))))"

fun calculate_arbitrage_opportunities ::
  "finder \<Rightarrow> match_entry list \<Rightarrow> py_error + betting_opportunity list" where
  "calculate_arbitrage_opportunities f [] = Inr []"
| "calculate_arbitrage_opportunities f (m # ms) =
     (case arbitrage_for_match f m of
        Inl e \<Rightarrow> Inl e
      | Inr opps \<Rightarrow>
          (case calculate_arbitrage_opportunities f ms of
             Inl e \<Rightarrow> Inl e
           | Inr rest \<Rightarrow> Inr (opps @ rest)))"

section \<open>Value bets\<close>

text \<open>
  The loop of \<^verbatim>\<open>_calculate_fair_probabilities\<close>: the lists \<^verbatim>\<open>home_probs\<close> and
  \<^verbatim>\<open>away_probs\<close>, one normalised pair for each quote whose two prices are positive.
  For such a quote the sum of the implied probabilities is positive, so the divisions
  cannot raise.
\<close>

definition norm_home_prob :: "odds_quote \<Rightarrow> real" where
  "norm_home_prob q = (1 / home q) / (1 / home q + 1 / away q)"

definition norm_away_prob :: "odds_quote \<Rightarrow> real" where
  "norm_away_prob q = (1 / away q) / (1 / home q + 1 / away q)"

definition valid_quote :: "odds_quote \<Rightarrow> bool" where
  "valid_quote q = (0 < home q \<and> 0 < away q)"

fun prob_lists :: "odds_dict \<Rightarrow> real list \<times> real list" where
  "prob_lists [] = ([], [])"
| "prob_lists (kq # rest) =
     (if valid_quote (snd kq)
      then (norm_home_prob (snd kq) # fst (prob_lists rest),
            norm_away_prob (snd kq) # snd (prob_lists rest))
      else prob_lists rest)"

definition calculate_fair_probabilities :: "odds_dict \<Rightarrow> real \<times> real" where
  "calculate_fair_probabilities od =
     (let home_probs = fst (prob_lists od); away_probs = snd (prob_lists od)
      in if home_probs = [] then (0, 0)
         else (sum_list home_probs / real (length home_probs),
               sum_list away_probs / real (length away_probs)))"

text \<open>The stake of \<^verbatim>\<open>_create_value_bet\<close>, before rounding.\<close>

definition kelly_fraction :: "real \<Rightarrow> real \<Rightarrow> real" where
  "kelly_fraction q value_percentage = (value_percentage / 100) / (q - 1)"

definition value_bet_stake :: "finder \<Rightarrow> real \<Rightarrow> real \<Rightarrow> real" where
  "value_bet_stake f q value_percentage =
     min (min (kelly_fraction q value_percentage * (1 / 4) * bankroll f)
              (max_stake_per_opportunity f))
         (bankroll f * (1 / 20))"

text \<open>
  \<^verbatim>\<open>_create_value_bet\<close>. It divides by \<^verbatim>\<open>odds - 1\<close> for the Kelly fraction and
  by the stake for \<^verbatim>\<open>roi\<close>.
\<close>

definition create_value_bet ::
  "finder \<Rightarrow> string \<Rightarrow> string \<Rightarrow> string \<Rightarrow> string \<Rightarrow> real \<Rightarrow> string \<Rightarrow> real
     \<Rightarrow> py_error + betting_opportunity" where
  "create_value_bet f mn hteam ateam team_side q bookmaker value_percentage =
     (if q - 1 = 0 then Inl ZeroDivisionError
      else let stake = value_bet_stake f q value_percentage;
               potential_profit = stake * (q - 1)
           in if stake = 0 then Inl ZeroDivisionError
              else Inr
                \<lparr>match_name = mn, home_team = hteam, away_team = ateam,
                 opportunity_type = ''value_bet'',
                 profit_percentage = value_percentage,
                 stake_distribution =
                   dict_set [] (Some bookmaker)
                     \<lparr>team = (if team_side = ''home'' then hteam else ateam),
                      amount = py_round2 stake,
                      odds = q,
                      potential_return = py_round2 (stake * q)\<rparr>,
                 total_stake = py_round2 stake,
                 guaranteed_profit = py_round2 potential_profit,
                 roi = (potential_profit / stake) * 100\<rparr>)"

text \<open>
  One of the two checks of the loop over the quotes in \<^verbatim>\<open>calculate_value_bets\<close>:
  the price \<open>q\<close> of one side against the fair odds of that side. The value percentage
  divides by the fair odds.
\<close>

definition check_side ::
  "finder \<Rightarrow> string \<Rightarrow> string \<Rightarrow> string \<Rightarrow> string \<Rightarrow> string \<Rightarrow> real \<Rightarrow> real
     \<Rightarrow> py_error + betting_opportunity list" where
  "check_side f mn hteam ateam team_side bookmaker q fair_odds =
     (if fair_odds * (105 / 100) < q
      then (if fair_odds = 0 then Inl ZeroDivisionError
            else let value_percentage = (q / fair_odds - 1) * 100
                 in if min_profit_percentage f \<le> value_percentage
                    then (case create_value_bet f mn hteam ateam team_side q bookmaker
                                 value_percentage of
                            Inl e \<Rightarrow> Inl e
                          | Inr value_bet \<Rightarrow> Inr [value_bet])
                    else Inr [])
      else Inr [])"

text \<open>The loop over the quotes of one match: the home check, then the away check.\<close>

fun value_bets_of_quotes ::
  "finder \<Rightarrow> string \<Rightarrow> string \<Rightarrow> string \<Rightarrow> real \<Rightarrow> real \<Rightarrow> odds_dict
     \<Rightarrow> py_error + betting_opportunity list" where
  "value_bets_of_quotes f mn hteam ateam fair_home_odds fair_away_odds [] = Inr []"
| "value_bets_of_quotes f mn hteam ateam fair_home_odds fair_away_odds (kq # rest) =
     (case check_side f mn hteam ateam ''home'' (fst kq) (home (snd kq)) fair_home_odds of
        Inl e \<Rightarrow> Inl e
      | Inr hs \<Rightarrow>
         (case check_side f mn hteam ateam ''away'' (fst kq) (away (snd kq)) fair_away_odds of
            Inl e \<Rightarrow> Inl e
          | Inr as \<Rightarrow>
             (case value_bets_of_quotes f mn hteam ateam fair_home_odds fair_away_odds rest of
                Inl e \<Rightarrow> Inl e
              | Inr os \<Rightarrow> Inr (hs @ as @ os))))"

text \<open>
  The fair odds of a side: \<^verbatim>\<open>1 / p if p > 0 else 0\<close>.
\<close>

definition fair_odds_of :: "real \<Rightarrow> real" where
  "fair_odds_of p = (if 0 < p then 1 / p else 0)"

text \<open>The body of the loop over the matches in \<^verbatim>\<open>calculate_value_bets\<close>.\<close>

definition value_bets_for_match :: "finder \<Rightarrow> match_entry \<Rightarrow> py_error + betting_opportunity list" where
  "value_bets_for_match f m =
     (case match_home_team m of
        None \<Rightarrow> Inl KeyError
      | Some hteam \<Rightarrow>
         (case match_away_team m of
            None \<Rightarrow> Inl KeyError
          | Some ateam \<Rightarrow>
             (case match_odds m of
                None \<Rightarrow> Inl KeyError
              | Some od \<Rightarrow>
                  value_bets_of_quotes f (hteam @ '' vs '' @ ateam) hteam ateam
                    (fair_odds_of (fst (calculate_fair_probabilities od)))
                    (fair_odds_of (snd (calculate_fair_probabilities od))) od)))"

fun calculate_value_bets ::
  "finder \<Rightarrow> match_entry list \<Rightarrow> py_error + betting_opportunity list" where
  "calculate_value_bets f [] = Inr []"
| "calculate_value_bets f (m # ms) =
     (case value_bets_for_match f m of
        Inl e \<Rightarrow> Inl e
      | Inr opps \<Rightarrow>
          (case calculate_value_bets f ms of
             Inl e \<Rightarrow> Inl e
           | Inr rest \<Rightarrow> Inr (opps @ rest)))"

section \<open>Ranking\<close>

text \<open>
  \<^verbatim>\<open>find_all_opportunities\<close>, from the value of \<^verbatim>\<open>load_odds_from_file\<close> on:
  \<open>None\<close> when no file could be read, the list of matches otherwise. An empty list
  of matches returns at once.
\<close>

definition find_all_opportunities ::
  "finder \<Rightarrow> match_entry list option \<Rightarrow> py_error + betting_opportunity list" where
  "find_all_opportunities f loaded =
     (case loaded of
        None \<Rightarrow> Inr []
      | Some matches \<Rightarrow>
         (if matches = [] then Inr []
          else (case calculate_arbitrage_opportunities f matches of
                  Inl e \<Rightarrow> Inl e
                | Inr arbitrage_opps \<Rightarrow>
                   (case calculate_value_bets f matches of
                      Inl e \<Rightarrow> Inl e
                    | Inr value_opps \<Rightarrow> Inr (sort_roi_desc (arbitrage_opps @ value_opps))))))"


section \<open>Notions of the specification\<close>

text \<open>The quotes of a match that the fair-odds estimator uses, in the dictionary's order.\<close>

definition valid_quotes :: "odds_dict \<Rightarrow> odds_quote list" where
  "valid_quotes od = filter valid_quote (map snd od)"





text \<open>A dictionary of quotes none of whose prices is positive.\<close>

definition no_positive_price :: "odds_dict \<Rightarrow> bool" where
  "no_positive_price od = list_all (\<lambda>kq. home (snd kq) \<le> 0 \<and> away (snd kq) \<le> 0) od"


section \<open>Concrete inputs\<close>

text \<open>The settings of \<^verbatim>\<open>main\<close>, and the match of the specification's first scenario.\<close>

definition example_finder :: finder where
  "example_finder = \<lparr>bankroll = 1000, min_profit_percentage = 1, max_stake_percentage = 25\<rparr>"

definition two_books :: odds_dict where
  "two_books = [(''sportsbet'', \<lparr>home = 21 / 10, away = 41 / 20\<rparr>),
                (''ladbrokes'', \<lparr>home = 39 / 20, away = 11 / 5\<rparr>)]"

definition two_books_match :: match_entry where
  "two_books_match = \<lparr>match_home_team = Some ''Carlton'', match_away_team = Some ''Essendon'',
                       match_odds = Some two_books\<rparr>"

text \<open>A dictionary whose only quote has no positive away price.\<close>

definition no_valid_quote :: odds_dict where
  "no_valid_quote = [(''sportsbet'', \<lparr>home = 2, away = 0\<rparr>)]"



text \<open>A match whose only quote has a positive home price and no away price.\<close>

definition no_valid_match :: match_entry where
  "no_valid_match = \<lparr>match_home_team = Some ''Carlton'', match_away_team = Some ''Essendon'',
                      match_odds = Some no_valid_quote\<rparr>"

text \<open>
  A match with one bookmaker whose two prices are the best of both sides and leave room for
  an arbitrage, and a finder whose 5% cap is not a whole number of cents.
\<close>

definition own_arbitrage_book :: odds_dict where
  "own_arbitrage_book = [(''sportsbet'', \<lparr>home = 3 / 2, away = 6\<rparr>)]"

definition own_arbitrage_match :: match_entry where
  "own_arbitrage_match = \<lparr>match_home_team = Some ''Carlton'', match_away_team = Some ''Essendon'',
                           match_odds = Some own_arbitrage_book\<rparr>"

definition capped_finder :: finder where
  "capped_finder = \<lparr>bankroll = 2503 / 25, min_profit_percentage = 1, max_stake_percentage = 5\<rparr>"


section \<open>Rounding and sorting\<close>

lemma round_half_even_bounds: "\<bar>of_int (round_half_even y) - y\<bar> \<le> 1 / 2"
  unfolding round_half_even_def Let_def by (auto simp: abs_if) linarith+

lemma py_round2_close: "\<bar>py_round2 x - x\<bar> \<le> 1 / 200"
proof -
  have "\<bar>of_int (round_half_even (x * 100)) - x * 100\<bar> \<le> 1 / 2"
    by (rule round_half_even_bounds)
  then show ?thesis unfolding py_round2_def by (simp add: abs_if field_simps split: if_splits)
qed

lemma py_round2_le: "x \<le> c \<Longrightarrow> py_round2 x \<le> c + 1 / 200"
  using py_round2_close [of x] by linarith

lemma mset_insort_roi_desc: "mset (insort_roi_desc x ys) = add_mset x (mset ys)"
  by (induction ys) auto

lemma mset_sort_roi_desc: "mset (sort_roi_desc xs) = mset xs"
  by (induction xs) (auto simp: mset_insort_roi_desc)

lemma set_insort_roi_desc: "set (insort_roi_desc x ys) = insert x (set ys)"
  by (induction ys) auto

lemma sorted_insort_roi_desc:
  "sorted_wrt (\<lambda>p q. roi q \<le> roi p) ys \<Longrightarrow> sorted_wrt (\<lambda>p q. roi q \<le> roi p) (insort_roi_desc x ys)"
  by (induction ys) (auto simp: set_insort_roi_desc)

lemma sorted_sort_roi_desc: "sorted_wrt (\<lambda>p q. roi q \<le> roi p) (sort_roi_desc xs)"
  by (induction xs) (auto simp: sorted_insort_roi_desc)

lemma filter_insort_roi_desc:
  "filter (\<lambda>p. roi p = r) (insort_roi_desc x ys) =
     (if roi x = r then x # filter (\<lambda>p. roi p = r) ys else filter (\<lambda>p. roi p = r) ys)"
  by (induction ys) auto

lemma filter_sort_roi_desc:
  "filter (\<lambda>p. roi p = r) (sort_roi_desc xs) = filter (\<lambda>p. roi p = r) xs"
  by (induction xs) (auto simp: filter_insort_roi_desc)

section \<open>The best prices\<close>







section \<open>Arbitrage arithmetic\<close>


lemma arb_total_stake_pos: "0 < bankroll f \<Longrightarrow> 0 < max_stake_percentage f \<Longrightarrow> 0 < arb_total_stake f"
  by (simp add: arb_total_stake_def max_stake_per_opportunity_def)

lemma arb_home_return_eq:
  assumes "0 < h" "0 < a"
  shows "arb_home_return f h a = arb_total_stake f / arb_total_prob h a"
  using assms unfolding arb_home_return_def arb_home_stake_def by simp

lemma arb_away_return_eq:
  assumes "0 < h" "0 < a"
  shows "arb_away_return f h a = arb_total_stake f / arb_total_prob h a"
  using assms unfolding arb_away_return_def arb_away_stake_def by simp

lemma get_arbitrage_percentage_pos:
  "0 < h \<Longrightarrow> 0 < a \<Longrightarrow> get_arbitrage_percentage h a = Inr ((1 / (1 / h + 1 / a) - 1) * 100)"
proof -
  assume "0 < h" "0 < a"
  then have "0 < 1 / h + 1 / a" by (simp add: add_pos_pos)
  then have "1 / h + 1 / a \<noteq> 0" by simp
  with \<open>0 < h\<close> \<open>0 < a\<close> show ?thesis
    by (simp add: get_arbitrage_percentage_def)
qed


lemma calculate_arbitrage_Some:
  assumes "calculate_arbitrage f h a hb ab hteam ateam mn = Inr (Some opp)"
  shows "opportunity_type opp = ''arbitrage''"
    and "set (stake_distribution opp) \<subseteq>
           {(hb, \<lparr>team = hteam, amount = py_round2 (arb_home_stake f h a), odds = h,
                  potential_return = py_round2 (arb_home_return f h a)\<rparr>),
            (ab, \<lparr>team = ateam, amount = py_round2 (arb_away_stake f h a), odds = a,
                  potential_return = py_round2 (arb_away_return f h a)\<rparr>)}"
  using assms by (auto simp: calculate_arbitrage_def split: if_splits)

lemma arbitrage_for_match_mem:
  assumes "arbitrage_for_match f m = Inr os" and "opp \<in> set os"
  shows "\<exists>h a hb ab hteam ateam mn. 0 < h \<and> 0 < a \<and>
           calculate_arbitrage f h a hb ab hteam ateam mn = Inr (Some opp)"
  using assms
  by (auto simp: arbitrage_for_match_def Let_def get_arbitrage_percentage_pos
           split: option.splits if_splits sum.splits) blast

lemma arb_stakes_le:
  assumes "0 < bankroll f" "0 < max_stake_percentage f" "0 < h" "0 < a"
  shows "arb_home_stake f h a \<le> bankroll f * max_stake_percentage f / 100"
    and "arb_away_stake f h a \<le> bankroll f * max_stake_percentage f / 100"
proof -
  have ts: "0 \<le> arb_total_stake f"
    using arb_total_stake_pos [OF assms(1,2)] by simp
  have le: "arb_total_stake f \<le> bankroll f * max_stake_percentage f / 100"
    by (simp add: arb_total_stake_def max_stake_per_opportunity_def)
  have tp: "0 < 1 / h + 1 / a" using assms(3,4) by (simp add: add_pos_pos)
  have h1: "(1 / h) / (1 / h + 1 / a) \<le> 1"
    by (subst divide_le_eq_1_pos [OF tp]) (use assms(4) in simp)
  have h0: "0 \<le> (1 / h) / (1 / h + 1 / a)"
    using tp assms(3) by (intro divide_nonneg_pos) simp_all
  have a1: "(1 / a) / (1 / h + 1 / a) \<le> 1"
    by (subst divide_le_eq_1_pos [OF tp]) (use assms(3) in simp)
  have a0: "0 \<le> (1 / a) / (1 / h + 1 / a)"
    using tp assms(4) by (intro divide_nonneg_pos) simp_all
  have "(1 / h) / (1 / h + 1 / a) * arb_total_stake f \<le> arb_total_stake f"
    using ts h0 h1 by (rule mult_left_le_one_le)
  then show "arb_home_stake f h a \<le> bankroll f * max_stake_percentage f / 100"
    unfolding arb_home_stake_def arb_total_prob_def using le by (rule order_trans)
  have "(1 / a) / (1 / h + 1 / a) * arb_total_stake f \<le> arb_total_stake f"
    using ts a0 a1 by (rule mult_left_le_one_le)
  then show "arb_away_stake f h a \<le> bankroll f * max_stake_percentage f / 100"
    unfolding arb_away_stake_def arb_total_prob_def using le by (rule order_trans)
qed

lemma calculate_arbitrage_opportunities_mem:
  assumes "calculate_arbitrage_opportunities f ms = Inr opps" and "opp \<in> set opps"
  shows "\<exists>m \<in> set ms. \<exists>os. arbitrage_for_match f m = Inr os \<and> opp \<in> set os"
  using assms
proof (induction ms arbitrary: opps)
  case Nil
  then show ?case by simp
next
  case (Cons m ms)
  from Cons.prems(1) obtain os rest where o: "arbitrage_for_match f m = Inr os"
    and r: "calculate_arbitrage_opportunities f ms = Inr rest" and e: "opps = os @ rest"
    by (auto split: sum.splits)
  show ?case
  proof (cases "opp \<in> set os")
    case True
    with o show ?thesis by auto
  next
    case False
    with Cons.prems(2) e have "opp \<in> set rest" by simp
    from Cons.IH [OF r this] show ?thesis by auto
  qed
qed

section \<open>The fair-odds estimator\<close>

lemma norm_probs_sum: "valid_quote q \<Longrightarrow> norm_home_prob q + norm_away_prob q = 1"
proof -
  assume "valid_quote q"
  then have pos: "0 < 1 / home q + 1 / away q"
    by (simp add: valid_quote_def add_pos_pos)
  have "(1 / home q) / (1 / home q + 1 / away q) + (1 / away q) / (1 / home q + 1 / away q)
      = (1 / home q + 1 / away q) / (1 / home q + 1 / away q)"
    by (rule add_divide_distrib [symmetric])
  also have "\<dots> = 1" using pos by simp
  finally show ?thesis
    unfolding norm_home_prob_def norm_away_prob_def .
qed

lemma prob_lists_eq:
  "prob_lists od = (map norm_home_prob (valid_quotes od), map norm_away_prob (valid_quotes od))"
  by (induction od) (auto simp: valid_quotes_def)

lemma sum_norm_probs:
  "sum_list (map norm_home_prob (filter valid_quote qs)) + sum_list (map norm_away_prob (filter valid_quote qs))
     = real (length (filter valid_quote qs))"
proof (induction qs)
  case Nil
  show ?case by simp
next
  case (Cons q qs)
  show ?case
  proof (cases "valid_quote q")
    case True
    from norm_probs_sum [OF True] Cons.IH show ?thesis using True by simp
  next
    case False
    with Cons.IH show ?thesis by simp
  qed
qed

lemma fair_probabilities_sum:
  assumes "valid_quotes od \<noteq> []"
  shows "fst (calculate_fair_probabilities od) + snd (calculate_fair_probabilities od) = 1"
proof -
  let ?v = "valid_quotes od"
  from assms have pos: "real (length ?v) \<noteq> 0" by simp
  have "sum_list (map norm_home_prob ?v) / real (length ?v) + sum_list (map norm_away_prob ?v) / real (length ?v)
      = (sum_list (map norm_home_prob ?v) + sum_list (map norm_away_prob ?v)) / real (length ?v)"
    by (simp add: add_divide_distrib)
  also have "\<dots> = 1" using pos sum_norm_probs [of "map snd od"] by (simp add: valid_quotes_def)
  finally show ?thesis using assms
    by (simp add: calculate_fair_probabilities_def prob_lists_eq)
qed

lemma fair_probabilities_none:
  assumes "valid_quotes od = []"
  shows "calculate_fair_probabilities od = (0, 0)"
  using assms by (simp add: calculate_fair_probabilities_def prob_lists_eq)


lemma sum_list_pos_real: "xs \<noteq> [] \<Longrightarrow> (\<And>x. x \<in> set xs \<Longrightarrow> (0::real) < x) \<Longrightarrow> 0 < sum_list xs"
proof (induction xs)
  case Nil
  then show ?case by simp
next
  case (Cons x xs)
  show ?case
  proof (cases "xs = []")
    case True
    with Cons.prems show ?thesis by simp
  next
    case False
    with Cons have "0 < sum_list xs" by simp
    moreover have "0 < x" using Cons.prems by simp
    ultimately show ?thesis by simp
  qed
qed

lemma norm_home_prob_pos: "valid_quote q \<Longrightarrow> 0 < norm_home_prob q"
  by (simp add: valid_quote_def norm_home_prob_def add_pos_pos)

lemma norm_away_prob_pos: "valid_quote q \<Longrightarrow> 0 < norm_away_prob q"
  by (simp add: valid_quote_def norm_away_prob_def add_pos_pos)

lemma fair_probabilities_pos:
  assumes "valid_quotes od \<noteq> []"
  shows "0 < fst (calculate_fair_probabilities od)" and "0 < snd (calculate_fair_probabilities od)"
proof -
  have v: "\<And>q. q \<in> set (valid_quotes od) \<Longrightarrow> valid_quote q"
    by (simp add: valid_quotes_def)
  have "0 < sum_list (map norm_home_prob (valid_quotes od))"
    using assms v by (intro sum_list_pos_real) (auto simp: norm_home_prob_pos)
  moreover have "0 < sum_list (map norm_away_prob (valid_quotes od))"
    using assms v by (intro sum_list_pos_real) (auto simp: norm_away_prob_pos)
  ultimately show "0 < fst (calculate_fair_probabilities od)"
    and "0 < snd (calculate_fair_probabilities od)"
    using assms by (simp_all add: calculate_fair_probabilities_def prob_lists_eq)
qed

lemma fair_odds_gt_one:
  assumes "valid_quotes od \<noteq> []"
  shows "fair_odds_of (fst (calculate_fair_probabilities od)) = 1 / fst (calculate_fair_probabilities od)"
    and "fair_odds_of (snd (calculate_fair_probabilities od)) = 1 / snd (calculate_fair_probabilities od)"
    and "1 < fair_odds_of (fst (calculate_fair_probabilities od))"
    and "1 < fair_odds_of (snd (calculate_fair_probabilities od))"
proof -
  note p = fair_probabilities_pos [OF assms]
  note s = fair_probabilities_sum [OF assms]
  from p s have lt: "fst (calculate_fair_probabilities od) < 1" "snd (calculate_fair_probabilities od) < 1"
    by linarith+
  from p show "fair_odds_of (fst (calculate_fair_probabilities od)) = 1 / fst (calculate_fair_probabilities od)"
    and "fair_odds_of (snd (calculate_fair_probabilities od)) = 1 / snd (calculate_fair_probabilities od)"
    by (simp_all add: fair_odds_of_def)
  from p lt show "1 < fair_odds_of (fst (calculate_fair_probabilities od))"
    and "1 < fair_odds_of (snd (calculate_fair_probabilities od))"
    by (simp_all add: fair_odds_of_def)
qed

lemma fair_odds_zero_or_gt_one:
  "fair_odds_of (fst (calculate_fair_probabilities od)) = 0 \<or>
   1 < fair_odds_of (fst (calculate_fair_probabilities od))"
  "fair_odds_of (snd (calculate_fair_probabilities od)) = 0 \<or>
   1 < fair_odds_of (snd (calculate_fair_probabilities od))"
proof -
  show "fair_odds_of (fst (calculate_fair_probabilities od)) = 0 \<or>
   1 < fair_odds_of (fst (calculate_fair_probabilities od))"
  proof (cases "valid_quotes od = []")
    case True
    then show ?thesis by (simp add: fair_probabilities_none fair_odds_of_def)
  next
    case False
    then show ?thesis by (simp add: fair_odds_gt_one(3))
  qed
  show "fair_odds_of (snd (calculate_fair_probabilities od)) = 0 \<or>
   1 < fair_odds_of (snd (calculate_fair_probabilities od))"
  proof (cases "valid_quotes od = []")
    case True
    then show ?thesis by (simp add: fair_probabilities_none fair_odds_of_def)
  next
    case False
    then show ?thesis by (simp add: fair_odds_gt_one(4))
  qed
qed

section \<open>Value bets, one check at a time\<close>


lemma value_bet_stake_le:
  "value_bet_stake f q vp \<le> bankroll f * max_stake_percentage f / 100"
  "value_bet_stake f q vp \<le> bankroll f * (5 / 100)"
  by (simp_all add: value_bet_stake_def max_stake_per_opportunity_def min_le_iff_disj)

lemma create_value_bet_Inr:
  assumes "create_value_bet f mn hteam ateam side q bk vp = Inr opp"
  shows "q \<noteq> 1" and "value_bet_stake f q vp \<noteq> 0"
    and "opp = \<lparr>match_name = mn, home_team = hteam, away_team = ateam,
                 opportunity_type = ''value_bet'',
                 profit_percentage = vp,
                 stake_distribution =
                   [(Some bk, \<lparr>team = (if side = ''home'' then hteam else ateam),
                      amount = py_round2 (value_bet_stake f q vp),
                      odds = q,
                      potential_return = py_round2 (value_bet_stake f q vp * q)\<rparr>)],
                 total_stake = py_round2 (value_bet_stake f q vp),
                 guaranteed_profit = py_round2 (value_bet_stake f q vp * (q - 1)),
                 roi = (q - 1) * 100\<rparr>"
  using assms by (auto simp: create_value_bet_def Let_def split: if_splits)




text \<open>What an emitted value bet says about the check that emitted it.\<close>

lemma check_side_mem:
  assumes "check_side f mn hteam ateam side bk q fo = Inr os" and "opp \<in> set os"
  shows "fo * (105 / 100) < q" and "fo \<noteq> 0"
    and "min_profit_percentage f \<le> (q / fo - 1) * 100"
    and "create_value_bet f mn hteam ateam side q bk ((q / fo - 1) * 100) = Inr opp"
  using assms by (auto simp: check_side_def Let_def split: if_splits sum.splits)



lemma value_bets_of_quotes_mem:
  assumes "value_bets_of_quotes f mn hteam ateam fho fao od = Inr os" and "opp \<in> set os"
  shows "\<exists>side q bk fo. (fo = fho \<or> fo = fao) \<and> fo * (105 / 100) < q \<and> fo \<noteq> 0 \<and>
           min_profit_percentage f \<le> (q / fo - 1) * 100 \<and>
           create_value_bet f mn hteam ateam side q bk ((q / fo - 1) * 100) = Inr opp"
  using assms
proof (induction od arbitrary: os)
  case Nil
  then show ?case by simp
next
  case (Cons kq od)
  from Cons.prems(1) obtain hs as rest
    where h: "check_side f mn hteam ateam ''home'' (fst kq) (home (snd kq)) fho = Inr hs"
      and a: "check_side f mn hteam ateam ''away'' (fst kq) (away (snd kq)) fao = Inr as"
      and r: "value_bets_of_quotes f mn hteam ateam fho fao od = Inr rest"
      and os: "os = hs @ as @ rest"
    by (auto split: sum.splits)
  from Cons.prems(2) os consider "opp \<in> set hs" | "opp \<in> set as" | "opp \<in> set rest" by auto
  then show ?case
  proof cases
    case 1
    from check_side_mem [OF h 1] show ?thesis by blast
  next
    case 2
    from check_side_mem [OF a 2] show ?thesis by blast
  next
    case 3
    from Cons.IH [OF r 3] show ?thesis .
  qed
qed

lemma calculate_value_bets_mem:
  assumes "calculate_value_bets f ms = Inr opps" and "opp \<in> set opps"
  shows "\<exists>m \<in> set ms. \<exists>os. value_bets_for_match f m = Inr os \<and> opp \<in> set os"
  using assms
proof (induction ms arbitrary: opps)
  case Nil
  then show ?case by simp
next
  case (Cons m ms)
  from Cons.prems(1) obtain os rest where o: "value_bets_for_match f m = Inr os"
    and r: "calculate_value_bets f ms = Inr rest" and e: "opps = os @ rest"
    by (auto split: sum.splits)
  show ?case
  proof (cases "opp \<in> set os")
    case True
    with o show ?thesis by auto
  next
    case False
    with Cons.prems(2) e have "opp \<in> set rest" by simp
    from Cons.IH [OF r this] show ?thesis by auto
  qed
qed

text \<open>Every emitted value bet comes from a price above 1.05 times fair odds that exceed 1.\<close>

lemma emitted_value_bet:
  assumes "calculate_value_bets f ms = Inr opps" and "opp \<in> set opps"
  shows "\<exists>mn hteam ateam side q bk fo. 1 < fo \<and> fo * (105 / 100) < q \<and>
           min_profit_percentage f \<le> (q / fo - 1) * 100 \<and>
           create_value_bet f mn hteam ateam side q bk ((q / fo - 1) * 100) = Inr opp"
proof -
  from calculate_value_bets_mem [OF assms] obtain m os
    where o: "value_bets_for_match f m = Inr os" and mem: "opp \<in> set os" by blast
  from o obtain hteam ateam od where
    v: "value_bets_of_quotes f (hteam @ '' vs '' @ ateam) hteam ateam
          (fair_odds_of (fst (calculate_fair_probabilities od)))
          (fair_odds_of (snd (calculate_fair_probabilities od))) od = Inr os"
    by (auto simp: value_bets_for_match_def split: option.splits)
  from value_bets_of_quotes_mem [OF v mem] obtain side q bk fo
    where fo: "fo = fair_odds_of (fst (calculate_fair_probabilities od)) \<or>
               fo = fair_odds_of (snd (calculate_fair_probabilities od))"
      and c: "fo * (105 / 100) < q" "fo \<noteq> 0" "min_profit_percentage f \<le> (q / fo - 1) * 100"
        "create_value_bet f (hteam @ '' vs '' @ ateam) hteam ateam side q bk ((q / fo - 1) * 100) = Inr opp"
    by blast
  from fo c(2) fair_odds_zero_or_gt_one [of od] have "1 < fo" by auto
  with c show ?thesis by blast
qed

section \<open>Missing fields and prices that are not positive\<close>










lemma no_positive_price_no_valid: "no_positive_price od \<Longrightarrow> valid_quotes od = []"
  by (induction od) (auto simp: no_positive_price_def valid_quotes_def valid_quote_def)




section \<open>Runs on the concrete inputs\<close>

lemma example_total_stake: "arb_total_stake example_finder = 100"
  by (simp add: arb_total_stake_def max_stake_per_opportunity_def example_finder_def)

lemma example_home_stake: "arb_home_stake example_finder (21 / 10) (11 / 5) = 2200 / 43"
  by (simp add: arb_home_stake_def arb_total_prob_def example_total_stake)

lemma example_away_stake: "arb_away_stake example_finder (21 / 10) (11 / 5) = 2100 / 43"
  by (simp add: arb_away_stake_def arb_total_prob_def example_total_stake)

lemma example_best: "find_best_odds two_books =
   \<lparr>best_home_odds = 21 / 10, best_away_odds = 11 / 5,
    best_home_book = Some ''sportsbet'', best_away_book = Some ''ladbrokes''\<rparr>"
  by (simp add: find_best_odds_def two_books_def best_step_def best_init_def)

lemma example_arbitrage_run:
  "\<exists>opp. calculate_arbitrage_opportunities example_finder [two_books_match] = Inr [opp] \<and>
         roi opp = 320 / 43 \<and> profit_percentage opp = 320 / 43 \<and>
         opportunity_type opp = ''arbitrage'' \<and>
         map fst (stake_distribution opp) = [Some ''sportsbet'', Some ''ladbrokes'']"
  by (simp add: two_books_match_def example_best example_finder_def arbitrage_for_match_def
      calculate_arbitrage_def arb_total_prob_def arb_total_stake_def max_stake_per_opportunity_def
      arb_profit_percentage_def arb_roi_def arb_guaranteed_profit_def arb_home_return_def
      arb_away_return_def arb_home_stake_def arb_away_stake_def)

lemma example_fair: "calculate_fair_probabilities two_books = (85 / 166, 81 / 166)"
  by (simp add: calculate_fair_probabilities_def two_books_def valid_quote_def norm_home_prob_def norm_away_prob_def)

lemma example_value_run:
  "\<exists>v1 v2. calculate_value_bets example_finder [two_books_match] = Inr [v1, v2] \<and>
         roi v1 = 110 \<and> roi v2 = 120"
  by (simp add: two_books_match_def example_fair value_bets_for_match_def fair_odds_of_def, 
      simp add: two_books_def example_finder_def check_side_def create_value_bet_def
  value_bet_stake_def kelly_fraction_def max_stake_per_opportunity_def Let_def)


lemma own_arbitrage_fair: "calculate_fair_probabilities own_arbitrage_book = (4 / 5, 1 / 5)"
  by (simp add: calculate_fair_probabilities_def own_arbitrage_book_def valid_quote_def
      norm_home_prob_def norm_away_prob_def)

lemma capped_value_run:
  "calculate_value_bets capped_finder [own_arbitrage_match] =
     Inr [\<lparr>match_name = ''Carlton vs Essendon'', home_team = ''Carlton'',
           away_team = ''Essendon'', opportunity_type = ''value_bet'',
           profit_percentage = 20,
           stake_distribution =
             [(Some ''sportsbet'',
               \<lparr>team = ''Carlton'', amount = 501 / 100, odds = 3 / 2,
                potential_return = 751 / 100\<rparr>)],
           total_stake = 501 / 100, guaranteed_profit = 5 / 2, roi = 50\<rparr>,
          \<lparr>match_name = ''Carlton vs Essendon'', home_team = ''Carlton'',
           away_team = ''Essendon'', opportunity_type = ''value_bet'',
           profit_percentage = 20,
           stake_distribution =
             [(Some ''sportsbet'',
               \<lparr>team = ''Essendon'', amount = 1, odds = 6,
                potential_return = 601 / 100\<rparr>)],
           total_stake = 1, guaranteed_profit = 501 / 100, roi = 500\<rparr>]"
  by (simp add: own_arbitrage_match_def own_arbitrage_fair value_bets_for_match_def fair_odds_of_def,
      simp add: own_arbitrage_book_def capped_finder_def check_side_def create_value_bet_def
        value_bet_stake_def kelly_fraction_def max_stake_per_opportunity_def Let_def
        py_round2_def round_half_even_def)

section \<open>The claims\<close>



text \<open>
  C2. For positive best odds \<open>h\<close>, \<open>a\<close> with \<open>1/h + 1/a < 1\<close>, the unrounded stakes pay
  the same on both outcomes, namely the total stake divided by the sum of the implied
  probabilities, and the unrounded guaranteed profit is that payout less the total stake.
  The opportunity that \<^verbatim>\<open>_calculate_arbitrage\<close> returns reports this profit rounded
  to two decimals, and its \<^verbatim>\<open>roi\<close> unrounded.
\<close>

theorem arbitrage_equal_payout:
  assumes "0 < h" and "0 < a" and "1 / h + 1 / a < 1"
  shows "arb_home_stake f h a * h = arb_away_stake f h a * a \<and>
         arb_home_stake f h a * h = arb_total_stake f / (1 / h + 1 / a) \<and>
         arb_guaranteed_profit f h a = arb_home_stake f h a * h - arb_total_stake f \<and>
         (\<forall>hb ab hteam ateam mn opp.
            calculate_arbitrage f h a hb ab hteam ateam mn = Inr (Some opp) \<longrightarrow>
              guaranteed_profit opp = py_round2 (arb_home_stake f h a * h - arb_total_stake f) \<and>
              roi opp = ((arb_home_stake f h a * h - arb_total_stake f) / arb_total_stake f) * 100)"
proof -
  have hr: "arb_home_stake f h a * h = arb_total_stake f / arb_total_prob h a"
    using arb_home_return_eq [OF assms(1,2), of f] by (simp add: arb_home_return_def)
  have ar: "arb_away_stake f h a * a = arb_total_stake f / arb_total_prob h a"
    using arb_away_return_eq [OF assms(1,2), of f] by (simp add: arb_away_return_def)
  have gp: "arb_guaranteed_profit f h a = arb_home_stake f h a * h - arb_total_stake f"
    unfolding arb_guaranteed_profit_def arb_home_return_def arb_away_return_def
    using hr ar by simp
  have emitted: "guaranteed_profit opp = py_round2 (arb_home_stake f h a * h - arb_total_stake f) \<and>
       roi opp = ((arb_home_stake f h a * h - arb_total_stake f) / arb_total_stake f) * 100"
    if "calculate_arbitrage f h a hb ab hteam ateam mn = Inr (Some opp)"
    for hb ab hteam ateam mn opp
    using that gp
    by (auto simp: calculate_arbitrage_def arb_roi_def split: if_splits)
  from hr ar gp emitted show ?thesis
    by (simp add: arb_total_prob_def)
qed

theorem arbitrage_equal_payout_witness:
  "arb_home_stake example_finder (21 / 10) (11 / 5) * (21 / 10)
     = arb_away_stake example_finder (21 / 10) (11 / 5) * (11 / 5) \<and>
   arb_home_stake example_finder (21 / 10) (11 / 5) * (21 / 10) = 4620 / 43 \<and>
   arb_guaranteed_profit example_finder (21 / 10) (11 / 5) = 320 / 43 \<and>
   (\<exists>opp. calculate_arbitrage example_finder (21 / 10) (11 / 5) (Some ''sportsbet'')
            (Some ''ladbrokes'') ''Carlton'' ''Essendon'' ''Carlton vs Essendon'' = Inr (Some opp) \<and>
          roi opp = 320 / 43)"
proof -
  have c: "(1::real) / (21 / 10) + 1 / (11 / 5) < 1" by simp
  have p: "(0::real) < 21 / 10" "(0::real) < 11 / 5" by simp_all
  note t = arbitrage_equal_payout [OF p c, of example_finder]
  obtain opp where o: "calculate_arbitrage example_finder (21 / 10) (11 / 5) (Some ''sportsbet'')
            (Some ''ladbrokes'') ''Carlton'' ''Essendon'' ''Carlton vs Essendon'' = Inr (Some opp)"
    by (simp add: calculate_arbitrage_def arb_total_prob_def example_total_stake)
  from t o have r: "roi opp = ((arb_home_stake example_finder (21 / 10) (11 / 5) * (21 / 10)
        - arb_total_stake example_finder) / arb_total_stake example_finder) * 100"
    by blast
  from t have e: "arb_home_stake example_finder (21 / 10) (11 / 5) * (21 / 10)
     = arb_away_stake example_finder (21 / 10) (11 / 5) * (11 / 5)"
    by blast
  from t have g: "arb_guaranteed_profit example_finder (21 / 10) (11 / 5)
     = arb_home_stake example_finder (21 / 10) (11 / 5) * (21 / 10) - arb_total_stake example_finder"
    by blast
  have v: "arb_home_stake example_finder (21 / 10) (11 / 5) * (21 / 10) = 4620 / 43"
    by (simp add: example_home_stake)
  have "roi opp = 320 / 43" unfolding r v example_total_stake by simp
  moreover have "arb_guaranteed_profit example_finder (21 / 10) (11 / 5) = 320 / 43"
    unfolding g v example_total_stake by simp
  ultimately show ?thesis using e v o by blast
qed

text \<open>
  C3. The claim fails on the code. For a match whose only quote has a positive home price
  and no positive away price the fair probabilities are (0, 0) and the fair odds are set
  to 0; the home price then passes the test against \<open>0 * 1.05\<close> and the value percentage
  divides by the fair odds: value-bet analysis raises \<^verbatim>\<open>ZeroDivisionError\<close> and the
  matches after it are not analysed. Arbitrage analysis of the same match returns no
  opportunity.
\<close>

theorem no_fair_estimate_raises:
  "calculate_fair_probabilities no_valid_quote = (0, 0) \<and>
   calculate_value_bets example_finder [no_valid_match, two_books_match] = Inl ZeroDivisionError \<and>
   calculate_arbitrage_opportunities example_finder [no_valid_match] = Inr []"
  by (simp add: no_valid_match_def no_valid_quote_def calculate_fair_probabilities_def
      valid_quote_def value_bets_for_match_def fair_odds_of_def check_side_def
      arbitrage_for_match_def find_best_odds_def best_step_def best_init_def)

text \<open>
  C4. The claim fails on the code. When one bookmaker quotes the best price of both sides,
  the dictionary display of \<^verbatim>\<open>_calculate_arbitrage\<close> stores both entries under the
  same key: the away entry replaces the home entry, and the arbitrage opportunity is
  returned with one stake entry of 20 against a total stake of 100.
\<close>

theorem same_bookmaker_one_entry:
  "calculate_arbitrage_opportunities example_finder [own_arbitrage_match] =
     Inr [\<lparr>match_name = ''Carlton vs Essendon'', home_team = ''Carlton'',
           away_team = ''Essendon'', opportunity_type = ''arbitrage'',
           profit_percentage = 20,
           stake_distribution =
             [(Some ''sportsbet'',
               \<lparr>team = ''Essendon'', amount = 20, odds = 6, potential_return = 120\<rparr>)],
           total_stake = 100, guaranteed_profit = 20, roi = 20\<rparr>]"
  by (simp add: own_arbitrage_match_def own_arbitrage_book_def arbitrage_for_match_def
      find_best_odds_def best_step_def best_init_def example_finder_def
      calculate_arbitrage_def arb_total_prob_def arb_total_stake_def max_stake_per_opportunity_def
      arb_away_stake_def arb_away_return_def arb_home_stake_def arb_home_return_def
      arb_guaranteed_profit_def arb_roi_def
      arb_profit_percentage_def py_round2_def round_half_even_def Let_def)



text \<open>
  C6, as stated, fails on the emitted amounts: an amount is the stake rounded to two
  decimals, and rounding can lift it above a cap. With a bankroll of 100.12 and a stake
  percentage of 5 both caps are 5.006, and the home value bet is emitted with the amount
  5.01.
\<close>

theorem rounded_amount_exceeds_cap:
  "calculate_value_bets capped_finder [own_arbitrage_match] =
     Inr [\<lparr>match_name = ''Carlton vs Essendon'', home_team = ''Carlton'',
           away_team = ''Essendon'', opportunity_type = ''value_bet'',
           profit_percentage = 20,
           stake_distribution =
             [(Some ''sportsbet'',
               \<lparr>team = ''Carlton'', amount = 501 / 100, odds = 3 / 2,
                potential_return = 751 / 100\<rparr>)],
           total_stake = 501 / 100, guaranteed_profit = 5 / 2, roi = 50\<rparr>,
          \<lparr>match_name = ''Carlton vs Essendon'', home_team = ''Carlton'',
           away_team = ''Essendon'', opportunity_type = ''value_bet'',
           profit_percentage = 20,
           stake_distribution =
             [(Some ''sportsbet'',
               \<lparr>team = ''Essendon'', amount = 1, odds = 6,
                potential_return = 601 / 100\<rparr>)],
           total_stake = 1, guaranteed_profit = 501 / 100, roi = 500\<rparr>] \<and>
   bankroll capped_finder * max_stake_percentage capped_finder / 100 = 2503 / 500 \<and>
   \<not> (501 / 100 \<le> bankroll capped_finder * max_stake_percentage capped_finder / 100)"
  using capped_value_run by (simp add: capped_finder_def)

text \<open>
  C6, amended. With a positive bankroll and a positive stake percentage, every amount of
  an emitted opportunity is the rounding to two decimals of a stake that is at most
  \<open>bankroll * max_stake_percentage / 100\<close>, so the amount exceeds that cap by at most
  half a cent. For a value bet the stake is
  \<open>min (0.25 * kelly_fraction * bankroll, max_stake_per_opportunity, bankroll * 0.05)\<close>,
  which is at most \<open>bankroll * 0.05\<close>.
\<close>

theorem stake_caps_before_rounding:
  assumes "0 < bankroll f" and "0 < max_stake_percentage f"
    and "calculate_arbitrage_opportunities f ms = Inr opps \<or> calculate_value_bets f ms = Inr opps"
    and "opp \<in> set opps" and "(bk, e) \<in> set (stake_distribution opp)"
  shows "\<exists>stake. amount e = py_round2 stake \<and>
           stake \<le> bankroll f * max_stake_percentage f / 100 \<and>
           amount e \<le> bankroll f * max_stake_percentage f / 100 + 1 / 200 \<and>
           (opportunity_type opp = ''value_bet'' \<longrightarrow>
              stake = min (min ((profit_percentage opp / 100) / (odds e - 1) * (1 / 4) * bankroll f)
                               (bankroll f * (max_stake_percentage f / 100)))
                          (bankroll f * (1 / 20)) \<and>
              stake \<le> bankroll f * (5 / 100) \<and>
              amount e \<le> bankroll f * (5 / 100) + 1 / 200)"
  using assms(3)
proof
  assume "calculate_arbitrage_opportunities f ms = Inr opps"
  from calculate_arbitrage_opportunities_mem [OF this assms(4)] obtain m os
    where "arbitrage_for_match f m = Inr os" "opp \<in> set os" by blast
  from arbitrage_for_match_mem [OF this] obtain h a hb ab hteam ateam mn
    where p: "0 < h" "0 < a"
      and c: "calculate_arbitrage f h a hb ab hteam ateam mn = Inr (Some opp)"
    by blast
  note s = calculate_arbitrage_Some [OF c]
  note le = arb_stakes_le [OF assms(1,2) p]
  from s(1) have nv: "opportunity_type opp \<noteq> ''value_bet''" by simp
  from s(2) assms(5) consider "amount e = py_round2 (arb_home_stake f h a)"
    | "amount e = py_round2 (arb_away_stake f h a)"
    by auto
  then show ?thesis
  proof cases
    case 1
    with le(1) py_round2_le [OF le(1)] nv show ?thesis by auto
  next
    case 2
    with le(2) py_round2_le [OF le(2)] nv show ?thesis by auto
  qed
next
  assume "calculate_value_bets f ms = Inr opps"
  from emitted_value_bet [OF this assms(4)] obtain mn hteam ateam side q b fo
    where c: "create_value_bet f mn hteam ateam side q b ((q / fo - 1) * 100) = Inr opp"
    by blast
  let ?vp = "(q / fo - 1) * 100"
  note r = create_value_bet_Inr(3) [OF c]
  have pp: "profit_percentage opp = ?vp" by (subst r) simp
  have "stake_distribution opp = [(Some b,
      \<lparr>team = (if side = ''home'' then hteam else ateam),
       amount = py_round2 (value_bet_stake f q ?vp), odds = q,
       potential_return = py_round2 (value_bet_stake f q ?vp * q)\<rparr>)]"
    by (subst r) simp
  with assms(5) have am: "amount e = py_round2 (value_bet_stake f q ?vp)" and od: "odds e = q"
    by auto
  have eq: "value_bet_stake f q ?vp =
      min (min ((profit_percentage opp / 100) / (odds e - 1) * (1 / 4) * bankroll f)
               (bankroll f * (max_stake_percentage f / 100)))
          (bankroll f * (1 / 20))"
    unfolding pp od by (simp add: value_bet_stake_def kelly_fraction_def max_stake_per_opportunity_def)
  note le = value_bet_stake_le [of f q ?vp]
  from am eq le py_round2_le [OF le(1)] py_round2_le [OF le(2)]
  show ?thesis by auto
qed

theorem stake_caps_before_rounding_witness:
  "0 < bankroll capped_finder \<and> 0 < max_stake_percentage capped_finder \<and>
   (\<exists>opps opp bk e stake.
      calculate_value_bets capped_finder [own_arbitrage_match] = Inr opps \<and>
      opp \<in> set opps \<and> (bk, e) \<in> set (stake_distribution opp) \<and>
      opportunity_type opp = ''value_bet'' \<and> odds e = 3 / 2 \<and>
      amount e = py_round2 stake \<and>
      stake \<le> bankroll capped_finder * max_stake_percentage capped_finder / 100 \<and>
      stake \<le> bankroll capped_finder * (5 / 100) \<and>
      amount e \<le> bankroll capped_finder * (5 / 100) + 1 / 200) \<and>
   (\<exists>opps opp bk e stake.
      calculate_arbitrage_opportunities example_finder [two_books_match] = Inr opps \<and>
      opp \<in> set opps \<and> (bk, e) \<in> set (stake_distribution opp) \<and>
      amount e = py_round2 stake \<and>
      stake \<le> bankroll example_finder * max_stake_percentage example_finder / 100)"
proof -
  have cfg: "0 < bankroll capped_finder" "0 < max_stake_percentage capped_finder"
    by (simp_all add: capped_finder_def)
  have cfg': "0 < bankroll example_finder" "0 < max_stake_percentage example_finder"
    by (simp_all add: example_finder_def)
  let ?e = "\<lparr>team = ''Carlton'', amount = 501 / 100, odds = 3 / 2,
             potential_return = 751 / 100\<rparr>"
  let ?v = "\<lparr>match_name = ''Carlton vs Essendon'', home_team = ''Carlton'',
           away_team = ''Essendon'', opportunity_type = ''value_bet'',
           profit_percentage = 20,
           stake_distribution = [(Some ''sportsbet'', ?e)],
           total_stake = 501 / 100, guaranteed_profit = 5 / 2, roi = 50\<rparr>"
  from capped_value_run obtain v2
    where run: "calculate_value_bets capped_finder [own_arbitrage_match] = Inr [?v, v2]"
    by blast
  have mem: "?v \<in> set [?v, v2]" by simp
  have ent: "(Some ''sportsbet'', ?e) \<in> set (stake_distribution ?v)" by simp
  have ty: "opportunity_type ?v = ''value_bet''" by simp
  from stake_caps_before_rounding [OF cfg disjI2 [OF run] mem ent] ty
  obtain stake where s: "amount ?e = py_round2 stake"
    "stake \<le> bankroll capped_finder * max_stake_percentage capped_finder / 100"
    "stake \<le> bankroll capped_finder * (5 / 100)"
    "amount ?e \<le> bankroll capped_finder * (5 / 100) + 1 / 200"
    by blast
  have od: "odds ?e = 3 / 2" by simp
  have first: "\<exists>opps opp bk e stake.
      calculate_value_bets capped_finder [own_arbitrage_match] = Inr opps \<and>
      opp \<in> set opps \<and> (bk, e) \<in> set (stake_distribution opp) \<and>
      opportunity_type opp = ''value_bet'' \<and> odds e = 3 / 2 \<and>
      amount e = py_round2 stake \<and>
      stake \<le> bankroll capped_finder * max_stake_percentage capped_finder / 100 \<and>
      stake \<le> bankroll capped_finder * (5 / 100) \<and>
      amount e \<le> bankroll capped_finder * (5 / 100) + 1 / 200"
    using run mem ent ty od s by blast
  obtain opp where a: "calculate_arbitrage_opportunities example_finder [two_books_match] = Inr [opp]"
    and ks: "map fst (stake_distribution opp) = [Some ''sportsbet'', Some ''ladbrokes'']"
    using example_arbitrage_run by auto
  from ks obtain e where ent': "(Some ''sportsbet'', e) \<in> set (stake_distribution opp)"
    by (cases "stake_distribution opp") auto
  have mem': "opp \<in> set [opp]" by simp
  from stake_caps_before_rounding [OF cfg' disjI1 [OF a] mem' ent']
  obtain stake' where "amount e = py_round2 stake'"
    "stake' \<le> bankroll example_finder * max_stake_percentage example_finder / 100"
    by blast
  with a mem' ent' have second: "\<exists>opps opp bk e stake.
      calculate_arbitrage_opportunities example_finder [two_books_match] = Inr opps \<and>
      opp \<in> set opps \<and> (bk, e) \<in> set (stake_distribution opp) \<and>
      amount e = py_round2 stake \<and>
      stake \<le> bankroll example_finder * max_stake_percentage example_finder / 100"
    by blast
  from cfg first second show ?thesis by blast
qed








text \<open>
  C10. When both detectors return, the list that \<^verbatim>\<open>find_all_opportunities\<close> returns
  has the elements of the arbitrage list followed by the value-bet list, each as often,
  is in descending order of \<^verbatim>\<open>roi\<close>, and keeps, among the opportunities of any one
  \<^verbatim>\<open>roi\<close>, the order of that concatenation.
\<close>

theorem ranking_sorted_stable:
  assumes "calculate_arbitrage_opportunities f ms = Inr arbitrage_opps"
    and "calculate_value_bets f ms = Inr value_opps"
  shows "\<exists>ranked. find_all_opportunities f (Some ms) = Inr ranked \<and>
           mset ranked = mset (arbitrage_opps @ value_opps) \<and>
           sorted_wrt (\<lambda>p q. roi q \<le> roi p) ranked \<and>
           (\<forall>r. filter (\<lambda>p. roi p = r) ranked
                  = filter (\<lambda>p. roi p = r) (arbitrage_opps @ value_opps))"
proof (cases "ms = []")
  case True
  with assms show ?thesis by (auto simp: find_all_opportunities_def)
next
  case False
  with assms have "find_all_opportunities f (Some ms) = Inr (sort_roi_desc (arbitrage_opps @ value_opps))"
    by (simp add: find_all_opportunities_def)
  then show ?thesis
    using mset_sort_roi_desc [of "arbitrage_opps @ value_opps"]
      sorted_sort_roi_desc [of "arbitrage_opps @ value_opps"]
      filter_sort_roi_desc [of _ "arbitrage_opps @ value_opps"]
    by simp
qed

theorem ranking_sorted_stable_witness:
  "\<exists>arbitrage_opps value_opps ranked.
     calculate_arbitrage_opportunities example_finder [two_books_match] = Inr arbitrage_opps \<and>
     calculate_value_bets example_finder [two_books_match] = Inr value_opps \<and>
     find_all_opportunities example_finder (Some [two_books_match]) = Inr ranked \<and>
     mset ranked = mset (arbitrage_opps @ value_opps) \<and>
     sorted_wrt (\<lambda>p q. roi q \<le> roi p) ranked \<and>
     map roi ranked = [120, 110, 320 / 43]"
proof -
  obtain opp where a: "calculate_arbitrage_opportunities example_finder [two_books_match] = Inr [opp]"
    and ra: "roi opp = 320 / 43"
    using example_arbitrage_run by blast
  obtain v1 v2 where v: "calculate_value_bets example_finder [two_books_match] = Inr [v1, v2]"
    and rv: "roi v1 = 110" "roi v2 = 120"
    using example_value_run by blast
  have run: "find_all_opportunities example_finder (Some [two_books_match]) = Inr [v2, v1, opp]"
    using a v ra rv by (simp add: find_all_opportunities_def)
  from ranking_sorted_stable [OF a v] run
  have m: "mset [v2, v1, opp] = mset ([opp] @ [v1, v2])"
    and srt: "sorted_wrt (\<lambda>p q. roi q \<le> roi p) [v2, v1, opp]"
    by auto
  have mp: "map roi [v2, v1, opp] = [120, 110, 320 / 43]"
    using ra rv by simp
  show ?thesis
    apply (rule exI [of _ "[opp]"])
    apply (rule exI [of _ "[v1, v2]"])
    apply (rule exI [of _ "[v2, v1, opp]"])
    apply (intro conjI a v run m srt mp)
    done
qed

end
